theory Spec2Isabelle
  imports Complex_Main "HOL-Library.Multiset"
begin

unbundle bit_operations_syntax

section \<open>Python strings\<close>

text \<open>
  A Python \<open>str\<close> is a sequence of Unicode code points, and \<open>len\<close>, indexing,
  \<open>startswith\<close> and the regular expressions of the program all count code points. A
  string is therefore a list of code points (natural numbers), so that the bullet glyphs
  and the copyright sign of \<open>pdf_parser.py\<close> are single characters. The function
  \<open>u\<close> reads an ASCII literal as such a string.

  Whitespace is the table of \<open>str.isspace\<close>. Letter case and digits are those of the
  ASCII range: \<open>str.lower\<close>, \<open>str.isupper\<close>, \<open>str.isdigit\<close> and the classes
  \<open>\\d\<close> and \<open>\\w\<close> agree with Python on every code point below 128 and treat the
  code points above as caseless non-digits, non-word characters.

  A Python \<open>float\<close> is modelled by a real number.
\<close>

type_synonym str = "nat list"

definition u :: "string \<Rightarrow> str" where
  "u s = map of_char s"

definition isspace :: "nat \<Rightarrow> bool" where
  "isspace c \<longleftrightarrow>
     (9 \<le> c \<and> c \<le> 13) \<or> (28 \<le> c \<and> c \<le> 32) \<or> c = 133 \<or> c = 160 \<or> c = 5760 \<or>
     (8192 \<le> c \<and> c \<le> 8202) \<or> c = 8232 \<or> c = 8233 \<or> c = 8239 \<or> c = 8287 \<or> c = 12288"

definition isupper :: "nat \<Rightarrow> bool" where
  "isupper c \<longleftrightarrow> 65 \<le> c \<and> c \<le> 90"

definition islower :: "nat \<Rightarrow> bool" where
  "islower c \<longleftrightarrow> 97 \<le> c \<and> c \<le> 122"

definition isdigit :: "nat \<Rightarrow> bool" where
  "isdigit c \<longleftrightarrow> 48 \<le> c \<and> c \<le> 57"

definition isword :: "nat \<Rightarrow> bool" where
  "isword c \<longleftrightarrow> isupper c \<or> islower c \<or> isdigit c \<or> c = 95"

definition lower_char :: "nat \<Rightarrow> nat" where
  "lower_char c = (if isupper c then c + 32 else c)"

definition str_lower :: "str \<Rightarrow> str" where
  "str_lower s = map lower_char s"

definition str_strip :: "str \<Rightarrow> str" where
  "str_strip s = rev (dropWhile isspace (rev (dropWhile isspace s)))"

text \<open>\<open>s.split()\<close>: the maximal runs of non-whitespace characters, \<open>w\<close> being the
  run read so far, last character first.\<close>

fun split_from :: "str \<Rightarrow> str \<Rightarrow> str list" where
  "split_from w [] = (if w = [] then [] else [rev w])"
| "split_from w (c # cs) =
     (if isspace c then (if w = [] then split_from [] cs else rev w # split_from [] cs)
      else split_from (c # w) cs)"

definition str_split :: "str \<Rightarrow> str list" where
  "str_split s = split_from [] s"

text \<open>\<open>sep.join(xs)\<close>\<close>

fun str_join :: "str \<Rightarrow> str list \<Rightarrow> str" where
  "str_join sep [] = []"
| "str_join sep [x] = x"
| "str_join sep (x # y # ys) = x @ sep @ str_join sep (y # ys)"

fun str_startswith :: "str \<Rightarrow> str \<Rightarrow> bool" where
  "str_startswith s [] = True"
| "str_startswith [] (p # ps) = False"
| "str_startswith (c # cs) (p # ps) = (c = p \<and> str_startswith cs ps)"

definition str_endswith :: "str \<Rightarrow> str \<Rightarrow> bool" where
  "str_endswith s p = str_startswith (rev s) (rev p)"

text \<open>\<open>p in s\<close>\<close>

fun str_contains :: "str \<Rightarrow> str \<Rightarrow> bool" where
  "str_contains [] p = (p = [])"
| "str_contains (c # cs) p = (str_startswith (c # cs) p \<or> str_contains cs p)"

section \<open>Sections\<close>

text \<open>
  A section is a dictionary with the keys \<open>section_title\<close>, \<open>context\<close>, \<open>summary\<close>,
  \<open>page\<close> and \<open>text\<close>. The program reads most of them with \<open>dict.get\<close> and a default,
  so a key may be absent: each field is optional. \<open>main\<close> adds the key \<open>document\<close>,
  which \<open>output_generator.py\<close> reads with \<open>section["document"]\<close>.
\<close>

record pdf_section =
  section_title :: "str option"
  context_v :: "str option"
  summary :: "str option"
  page :: "int option"
  text_v :: "str option"

record doc_section = pdf_section +
  document :: str

text \<open>\<open>d.get(key, default)\<close>\<close>

definition get_or :: "'a option \<Rightarrow> 'a \<Rightarrow> 'a" where
  "get_or v d = (case v of None \<Rightarrow> d | Some x \<Rightarrow> x)"

section \<open>Diversity selection (output\_generator.py)\<close>

definition max_sections :: nat where
  "max_sections = 5"

definition max_per_doc :: "str list \<Rightarrow> nat" where
  "max_per_doc documents = max 1 (max_sections div max (length documents) 1)"

record selection =
  doc_counts :: "str \<rightharpoonup> nat"
  seen_sections :: "(str \<times> str \<times> int) set"
  final_sections :: "(real \<times> doc_section) list"

definition selection_init :: selection where
  "selection_init = \<lparr>doc_counts = Map.empty, seen_sections = {}, final_sections = []\<rparr>"

definition title_of :: "doc_section \<Rightarrow> str" where
  "title_of s = str_strip (get_or (section_title s) [])"

definition section_key :: "doc_section \<Rightarrow> str \<times> str \<times> int" where
  "section_key s = (document s, str_lower (title_of s), get_or (page s) 1)"

definition title_valid :: "doc_section \<Rightarrow> bool" where
  "title_valid s \<longleftrightarrow> \<not> (title_of s = [] \<or> length (str_strip (title_of s)) < 3)"

definition accept :: "selection \<Rightarrow> real \<times> doc_section \<Rightarrow> selection" where
  "accept st p =
     st\<lparr>doc_counts := (doc_counts st)(document (snd p) \<mapsto> get_or (doc_counts st (document (snd p))) 0 + 1),
        seen_sections := insert (section_key (snd p)) (seen_sections st),
        final_sections := final_sections st @ [p]\<rparr>"

text \<open>The first loop over \<open>ranked_sections\<close>; \<open>break\<close> ends the recursion.\<close>

fun pass1 :: "nat \<Rightarrow> selection \<Rightarrow> (real \<times> doc_section) list \<Rightarrow> selection" where
  "pass1 mpd st [] = st"
| "pass1 mpd st (p # rest) =
     (if section_key (snd p) \<in> seen_sections st then pass1 mpd st rest
      else if get_or (doc_counts st (document (snd p))) 0 \<ge> mpd then pass1 mpd st rest
      else if \<not> title_valid (snd p) then pass1 mpd st rest
      else if length (final_sections (accept st p)) \<ge> max_sections then accept st p
      else pass1 mpd (accept st p) rest)"

definition admit :: "selection \<Rightarrow> real \<times> doc_section \<Rightarrow> selection" where
  "admit st p =
     st\<lparr>seen_sections := insert (section_key (snd p)) (seen_sections st),
        final_sections := final_sections st @ [p]\<rparr>"

text \<open>The second loop, entered when the first left seats empty: no per-document limit.\<close>

fun pass2 :: "int \<Rightarrow> selection \<Rightarrow> (real \<times> doc_section) list \<Rightarrow> selection" where
  "pass2 remaining_slots st [] = st"
| "pass2 remaining_slots st (p # rest) =
     (if remaining_slots \<le> 0 then st
      else if section_key (snd p) \<in> seen_sections st then pass2 remaining_slots st rest
      else if title_valid (snd p) then pass2 (remaining_slots - 1) (admit st p) rest
      else pass2 remaining_slots st rest)"

definition first_pass :: "str list \<Rightarrow> (real \<times> doc_section) list \<Rightarrow> selection" where
  "first_pass documents ranked_sections =
     pass1 (max_per_doc documents) selection_init ranked_sections"

definition select_sections :: "str list \<Rightarrow> (real \<times> doc_section) list \<Rightarrow> (real \<times> doc_section) list" where
  "select_sections documents ranked_sections =
     (let st = first_pass documents ranked_sections in
      if length (final_sections st) < max_sections \<and>
         length ranked_sections > length (final_sections st)
      then final_sections
             (pass2 (int max_sections - int (length (final_sections st))) st ranked_sections)
      else final_sections st)"

section \<open>Output assembly (output\_generator.py)\<close>

record metadata =
  input_documents :: "str list"
  persona :: str
  job_to_be_done :: str
  processing_timestamp :: str

record extracted_section =
  es_document :: str
  es_section_title :: str
  importance_rank :: nat
  es_page_number :: int

record subsection_entry =
  sa_document :: str
  refined_text :: str
  sa_page_number :: int

record combined_output =
  metadata :: metadata
  extracted_sections :: "extracted_section list"
  subsection_analysis :: "subsection_entry list"

text \<open>\<open>a or b\<close> on strings\<close>

definition str_or :: "str \<Rightarrow> str \<Rightarrow> str" where
  "str_or a b = (if a \<noteq> [] then a else b)"

definition refine_text :: "doc_section \<Rightarrow> str" where
  "refine_text s =
     (let r0 = str_strip (str_or (get_or (summary s) [])
                           (str_or (get_or (context_v s) []) (get_or (section_title s) [])));
          r1 = (if r0 = [] \<or> length (str_split r0) < 5
                then u ''Section covering: '' @ get_or (section_title s) (u ''Unknown topic'')
                else r0);
          words = str_split r1
      in if length words > 100 then str_join (u '' '') (take 100 words) @ u ''...'' else r1)"

definition extracted_of :: "nat \<Rightarrow> real \<times> doc_section \<Rightarrow> extracted_section" where
  "extracted_of rank p =
     \<lparr>es_document = document (snd p),
      es_section_title = get_or (section_title (snd p)) (u ''Unknown Section''),
      importance_rank = rank,
      es_page_number = get_or (page (snd p)) 1\<rparr>"

definition subsection_of :: "real \<times> doc_section \<Rightarrow> subsection_entry" where
  "subsection_of p =
     \<lparr>sa_document = document (snd p),
      refined_text = refine_text (snd p),
      sa_page_number = get_or (page (snd p)) 1\<rparr>"

text \<open>
  \<open>generate_combined_output\<close> returns the document it writes to
  \<open>combined_output.json\<close>. \<open>now\<close> is the text of \<open>datetime.utcnow().isoformat()\<close>.
\<close>

definition generate_combined_output ::
  "str \<Rightarrow> str list \<Rightarrow> str \<Rightarrow> str \<Rightarrow> (real \<times> doc_section) list \<Rightarrow> combined_output" where
  "generate_combined_output now documents pers job ranked_sections =
     (let md = \<lparr>input_documents = documents, persona = pers, job_to_be_done = job,
                 processing_timestamp = now @ u ''Z''\<rparr>
      in if ranked_sections = []
         then \<lparr>metadata = md, extracted_sections = [], subsection_analysis = []\<rparr>
         else let final = select_sections documents ranked_sections
              in \<lparr>metadata = md,
                  extracted_sections = map (\<lambda>(i, p). extracted_of (Suc i) p) (enumerate 0 final),
                  subsection_analysis = map subsection_of final\<rparr>)"

section \<open>Relevance scoring (relevance\_model.py)\<close>

text \<open>\<open>re.findall(r'\\w+', s)\<close>: the maximal runs of word characters, \<open>w\<close> being the run
  read so far, last character first.\<close>

fun words_from :: "str \<Rightarrow> str \<Rightarrow> str list" where
  "words_from w [] = (if w = [] then [] else [rev w])"
| "words_from w (c # cs) =
     (if isword c then words_from (c # w) cs
      else if w = [] then words_from [] cs else rev w # words_from [] cs)"

definition findall_words :: "str \<Rightarrow> str list" where
  "findall_words s = words_from [] s"

definition keyword_overlap :: "str \<Rightarrow> str \<Rightarrow> real" where
  "keyword_overlap query enhanced_text =
     (let query_words = set (findall_words (str_lower query));
          section_words = set (findall_words (str_lower enhanced_text))
      in real (card (query_words \<inter> section_words)) / real (max (card query_words) 1))"

definition keyword_bonus :: "str \<Rightarrow> str \<Rightarrow> real" where
  "keyword_bonus query enhanced_text = keyword_overlap query enhanced_text * 0.2"

definition heading_of :: "'a pdf_section_scheme \<Rightarrow> str" where
  "heading_of s = get_or (section_title s) (get_or (text_v s) [])"

definition content_of :: "'a pdf_section_scheme \<Rightarrow> str" where
  "content_of s = get_or (summary s) (get_or (context_v s) [])"

definition heading_bonus :: "str \<Rightarrow> real" where
  "heading_bonus heading =
     (if length (str_split heading) \<ge> 2 then 0.05 else 0) +
     (if list_ex (str_contains (str_lower heading))
           [u ''method'', u ''result'', u ''analysis'', u ''approach'', u ''technique'']
      then 0.1 else 0)"

definition length_bonus :: "str \<Rightarrow> real" where
  "length_bonus content = min (real (length (str_split content)) / 100) 0.1"

text \<open>\<open>calculate_position_bonus\<close>, for the section at index \<open>i\<close> of \<open>n\<close> sections.\<close>

definition position_bonus :: "nat \<Rightarrow> nat \<Rightarrow> 'a pdf_section_scheme \<Rightarrow> real" where
  "position_bonus n i s =
     max 0 ((10 - real_of_int (get_or (page s) 10)) / 10 * 0.1) +
     max 0 ((real n - real i) / real n * 0.05)"

text \<open>
  The weighted sum of \<open>score_sections\<close>. The two similarity scores come from the
  embedding model and the TF-IDF vectoriser, which are not part of this program.
\<close>

definition total_score :: "real \<Rightarrow> real \<Rightarrow> str \<Rightarrow> str \<Rightarrow> real \<Rightarrow> str \<Rightarrow> str \<Rightarrow> real" where
  "total_score semantic_score tfidf_score query enhanced_text pos_bonus heading content =
     0.4 * semantic_score + 0.3 * tfidf_score + 0.1 * keyword_bonus query enhanced_text +
     0.1 * pos_bonus + 0.05 * heading_bonus heading + 0.05 * length_bonus content"

text \<open>\<open>filter_duplicates\<close>: the test of one heading against one retained heading.\<close>

definition similar :: "real \<Rightarrow> str \<Rightarrow> str \<Rightarrow> bool" where
  "similar similarity_threshold heading seen_text =
     (let words1 = set (str_split heading); words2 = set (str_split seen_text)
      in words1 \<noteq> {} \<and> words2 \<noteq> {} \<and>
         real (card (words1 \<inter> words2)) / real (card (words1 \<union> words2)) > similarity_threshold)"

fun is_duplicate :: "real \<Rightarrow> str \<Rightarrow> str list \<Rightarrow> bool" where
  "is_duplicate t heading [] = False"
| "is_duplicate t heading (seen_text # rest) =
     (if similar t heading seen_text then True else is_duplicate t heading rest)"

definition dedup_heading :: "'a pdf_section_scheme \<Rightarrow> str" where
  "dedup_heading s = str_strip (str_lower (heading_of s))"

fun dedup_loop ::
  "real \<Rightarrow> (real \<times> 'a pdf_section_scheme) list \<Rightarrow> str list \<Rightarrow>
   (real \<times> 'a pdf_section_scheme) list \<Rightarrow> (real \<times> 'a pdf_section_scheme) list" where
  "dedup_loop t filtered seen_texts [] = filtered"
| "dedup_loop t filtered seen_texts (p # rest) =
     (if is_duplicate t (dedup_heading (snd p)) seen_texts
      then dedup_loop t filtered seen_texts rest
      else dedup_loop t (filtered @ [p]) (seen_texts @ [dedup_heading (snd p)]) rest)"

definition filter_duplicates ::
  "(real \<times> 'a pdf_section_scheme) list \<Rightarrow> real \<Rightarrow> (real \<times> 'a pdf_section_scheme) list" where
  "filter_duplicates ranked_results similarity_threshold =
     (if ranked_results = [] then ranked_results
      else dedup_loop similarity_threshold [] [] ranked_results)"

section \<open>Errors\<close>

datatype error = ValueError | IndexError | KeyError | OpenError

section \<open>Extractive summary (summarizer.py)\<close>

text \<open>\<open>re.sub(r'\\s+', ' ', text)\<close>: every maximal run of whitespace becomes one space;
  the flag says that the previous character was whitespace.\<close>

fun collapse_ws :: "bool \<Rightarrow> str \<Rightarrow> str" where
  "collapse_ws in_ws [] = []"
| "collapse_ws in_ws (c # cs) =
     (if isspace c then (if in_ws then collapse_ws True cs else 32 # collapse_ws True cs)
      else c # collapse_ws False cs)"

definition clean_text :: "str \<Rightarrow> str" where
  "clean_text text = str_strip (collapse_ws False text)"

text \<open>
  The libraries the summariser calls are parameters of the model:
  \<^item> \<open>sent_tokenize\<close> is \<open>nltk.sent_tokenize\<close>;
  \<^item> \<open>tfidf_importance\<close> fits a \<open>TfidfVectorizer(stop_words="english")\<close> on the sentences
    and returns the row sums of the matrix, or \<open>None\<close> when the vectoriser raises (it
    does when no sentence has a term left);
  \<^item> \<open>argsort\<close> is \<open>numpy.argsort\<close>.
\<close>

record nlp =
  sent_tokenize :: "str \<Rightarrow> str list"
  tfidf_importance :: "str list \<Rightarrow> real list option"
  argsort :: "real list \<Rightarrow> nat list"

text \<open>\<open>xs[:k]\<close> for a Python integer \<open>k\<close>: a negative \<open>k\<close> counts from the end.\<close>

definition py_take :: "int \<Rightarrow> 'a list \<Rightarrow> 'a list" where
  "py_take k xs = (if 0 \<le> k then take (nat k) xs else take (nat (int (length xs) + k)) xs)"

definition summarize_text :: "nlp \<Rightarrow> str \<Rightarrow> int \<Rightarrow> error + str" where
  "summarize_text lib text max_sentences =
     (let sentences = sent_tokenize lib text
      in if int (length sentences) \<le> max_sentences then Inr (clean_text text)
         else case tfidf_importance lib sentences of
                None \<Rightarrow> Inl ValueError
              | Some importance \<Rightarrow>
                  let ranked_indices = rev (argsort lib importance);
                      chosen = sort (py_take max_sentences ranked_indices)
                  in if list_all (\<lambda>i. i < length sentences) chosen
                     then Inr (clean_text (str_join (u '' '') (map (\<lambda>i. sentences ! i) chosen)))
                     else Inl IndexError)"

section \<open>Layout lines and font statistics (pdf\_parser.py)\<close>

type_synonym bbox = "real \<times> real \<times> real \<times> real"

record pdf_span =
  sp_text :: str
  sp_size :: real
  sp_flags :: int
  sp_font :: str
  sp_bbox :: bbox

record pdf_line =
  ln_spans :: "pdf_span list"
  ln_bbox :: bbox

text \<open>A block without the key \<open>lines\<close> (an image) is \<open>None\<close>.\<close>

type_synonym pdf_block = "pdf_line list option"
type_synonym pdf_page = "pdf_block list"
type_synonym pdf_doc = "pdf_page list"

record span_data =
  sd_text :: str
  sd_spans :: "pdf_span list"
  sd_page :: int
  sd_bbox :: "bbox option"

text \<open>\<open>font_stats\<close> is a dictionary, which keeps its keys in the order of their first
  insertion: an association list.\<close>

type_synonym font_key = "real \<times> bool"
type_synonym font_stats = "(font_key \<times> nat) list"

definition is_bold :: "int \<Rightarrow> bool" where
  "is_bold flags \<longleftrightarrow> (flags AND 16) > 0"

text \<open>\<open>font_stats[font_key] += n\<close> on a \<open>defaultdict(int)\<close>\<close>

fun add_stat :: "font_key \<Rightarrow> nat \<Rightarrow> font_stats \<Rightarrow> font_stats" where
  "add_stat k n [] = [(k, 0 + n)]"
| "add_stat k n (kv # rest) =
     (if fst kv = k then (k, snd kv + n) # rest else kv # add_stat k n rest)"

fun scan_spans ::
  "pdf_span list \<Rightarrow> str \<times> pdf_span list \<times> font_stats \<Rightarrow> str \<times> pdf_span list \<times> font_stats" where
  "scan_spans [] acc = acc"
| "scan_spans (sp # rest) (line_text, line_spans, stats) =
     (let text = str_strip (sp_text sp)
      in if text \<noteq> []
         then scan_spans rest
                (line_text @ text @ u '' '',
                 line_spans @ [sp\<lparr>sp_text := text\<rparr>],
                 add_stat (sp_size sp, is_bold (sp_flags sp)) (length (str_split text)) stats)
         else scan_spans rest (line_text, line_spans, stats))"

fun scan_lines ::
  "int \<Rightarrow> pdf_line list \<Rightarrow> span_data list \<times> font_stats \<Rightarrow> span_data list \<times> font_stats" where
  "scan_lines pg [] acc = acc"
| "scan_lines pg (line # rest) (spans_data, stats) =
     (case scan_spans (ln_spans line) ([], [], stats) of
        (line_text, line_spans, stats') \<Rightarrow>
          if str_strip line_text \<noteq> []
          then scan_lines pg rest
                 (spans_data @
                    [\<lparr>sd_text = str_strip line_text, sd_spans = line_spans, sd_page = pg,
                      sd_bbox = (if line_spans \<noteq> [] then Some (ln_bbox line) else None)\<rparr>],
                  stats')
          else scan_lines pg rest (spans_data, stats'))"

fun scan_blocks ::
  "int \<Rightarrow> pdf_block list \<Rightarrow> span_data list \<times> font_stats \<Rightarrow> span_data list \<times> font_stats" where
  "scan_blocks pg [] acc = acc"
| "scan_blocks pg (block # rest) acc =
     (case block of
        None \<Rightarrow> scan_blocks pg rest acc
      | Some lines \<Rightarrow> scan_blocks pg rest (scan_lines pg lines acc))"

fun scan_pages ::
  "int \<Rightarrow> pdf_page list \<Rightarrow> span_data list \<times> font_stats \<Rightarrow> span_data list \<times> font_stats" where
  "scan_pages page_num [] acc = acc"
| "scan_pages page_num (pg # rest) acc =
     scan_pages (page_num + 1) rest (scan_blocks (page_num + 1) pg acc)"

text \<open>\<open>max(font_stats.keys(), key=...)\<close> keeps the first key among those of the highest
  count: a later key replaces the best one only when its count is strictly higher.\<close>

fun max_from :: "font_key \<times> nat \<Rightarrow> font_stats \<Rightarrow> font_key \<times> nat" where
  "max_from best [] = best"
| "max_from best (kv # rest) = (if snd kv > snd best then max_from kv rest else max_from best rest)"

definition body_font :: "font_stats \<Rightarrow> font_key option" where
  "body_font stats = (case stats of [] \<Rightarrow> None | kv # rest \<Rightarrow> Some (fst (max_from kv rest)))"

definition doc_font_stats :: "pdf_doc \<Rightarrow> font_stats" where
  "doc_font_stats doc = snd (scan_pages 0 doc ([], []))"

definition doc_body_font :: "pdf_doc \<Rightarrow> font_key option" where
  "doc_body_font doc = body_font (doc_font_stats doc)"


section \<open>Heading classification (pdf\_parser.py)\<close>

text \<open>
  Each regular expression of the program is a function on the text that \<open>re.match\<close>
  would scan from its start. \<open>at_end\<close> is where \<open>$\<close> matches: at the end of the text
  or before a newline that ends it.
\<close>

definition at_end :: "str \<Rightarrow> bool" where
  "at_end r \<longleftrightarrow> r = [] \<or> r = [10]"

text \<open>\<open>^\\(?\\d+[\\.\\)]\<close>\<close>

definition re_enumerated :: "str \<Rightarrow> bool" where
  "re_enumerated s =
     (let r = (case s of [] \<Rightarrow> [] | c # cs \<Rightarrow> if c = 40 then cs else s)
      in takeWhile isdigit r \<noteq> [] \<and>
         (case dropWhile isdigit r of [] \<Rightarrow> False | c # _ \<Rightarrow> c = 46 \<or> c = 41))"

text \<open>\<open>^[a-zA-Z]\\)\<close>\<close>

definition re_letter_paren :: "str \<Rightarrow> bool" where
  "re_letter_paren s =
     (case s of c # d # _ \<Rightarrow> (islower c \<or> isupper c) \<and> d = 41 | _ \<Rightarrow> False)"

definition bullet_starts :: "nat list" where
  "bullet_starts = [8226, 9679, 45, 42, 9642, 8227, 10148, 9702, 8211]"

definition is_bullet_point :: "str \<Rightarrow> bool" where
  "is_bullet_point text =
     (if list_ex (\<lambda>b. str_startswith (str_strip text) [b]) bullet_starts then True
      else if re_enumerated (str_strip text) then True
      else if re_letter_paren (str_strip text) then True
      else False)"

text \<open>\<open>^\\d+$\<close>\<close>

definition re_number :: "str \<Rightarrow> bool" where
  "re_number s \<longleftrightarrow> takeWhile isdigit s \<noteq> [] \<and> at_end (dropWhile isdigit s)"

text \<open>\<open>^[ivxlcdm]+$\<close>\<close>

definition is_roman :: "nat \<Rightarrow> bool" where
  "is_roman c \<longleftrightarrow> c \<in> set (u ''ivxlcdm'')"

definition re_roman :: "str \<Rightarrow> bool" where
  "re_roman s \<longleftrightarrow> takeWhile is_roman s \<noteq> [] \<and> at_end (dropWhile is_roman s)"

text \<open>\<open>^[a-z][\\.\\)]\<close>\<close>

definition re_lower_bullet :: "str \<Rightarrow> bool" where
  "re_lower_bullet s = (case s of c # d # _ \<Rightarrow> islower c \<and> (d = 46 \<or> d = 41) | _ \<Rightarrow> False)"

text \<open>\<open>^\\([^)]+\\)$\<close>\<close>

definition re_parenthesized :: "str \<Rightarrow> bool" where
  "re_parenthesized s =
     (case s of [] \<Rightarrow> False
      | c # t \<Rightarrow> c = 40 \<and> takeWhile (\<lambda>x. x \<noteq> 41) t \<noteq> [] \<and>
          (case dropWhile (\<lambda>x. x \<noteq> 41) t of [] \<Rightarrow> False | _ # r \<Rightarrow> at_end r))"

text \<open>The class of bullet glyphs, hyphen, dash and asterisk at the start of the text\<close>

definition re_bullet :: "str \<Rightarrow> bool" where
  "re_bullet s =
     (case s of [] \<Rightarrow> False
      | c # _ \<Rightarrow> c \<in> set [8226, 45, 8211, 9679, 9702, 9642, 8227, 10148, 42])"

text \<open>\<open>^\\s*$\<close>\<close>

definition re_blank :: "str \<Rightarrow> bool" where
  "re_blank s \<longleftrightarrow> dropWhile isspace s = []"

text \<open>\<open>^(w1|w2|...)[class]\<close>: one of the words, then a character of the class\<close>

definition re_word_then :: "str list \<Rightarrow> (nat \<Rightarrow> bool) \<Rightarrow> str \<Rightarrow> bool" where
  "re_word_then ws cls s =
     list_ex (\<lambda>w. str_startswith s w \<and>
                   (case drop (length w) s of [] \<Rightarrow> False | c # _ \<Rightarrow> cls c)) ws"

definition skip_patterns :: "(str \<Rightarrow> bool) list" where
  "skip_patterns =
     [re_number, re_roman, re_lower_bullet, re_parenthesized, re_bullet, re_enumerated,
      re_letter_paren, re_blank,
      re_word_then [u ''figure'', u ''table'', u ''fig'', u ''tab''] (\<lambda>c. isspace c \<or> isdigit c),
      re_word_then [u ''see'', u ''refer'', u ''source'', u ''note''] (\<lambda>c. isspace c \<or> c = 58)]"

definition footer_keywords :: "str list" where
  "footer_keywords =
     [u ''page'', u ''chapter'', u ''section'', u ''www.'', u ''http'', u ''@'', u ''copyright'',
      [169]]"

text \<open>\<open>^\\d+[\\.\\s]\<close>\<close>

definition re_numbered :: "str \<Rightarrow> bool" where
  "re_numbered s \<longleftrightarrow>
     takeWhile isdigit s \<noteq> [] \<and>
     (case dropWhile isdigit s of [] \<Rightarrow> False | c # _ \<Rightarrow> c = 46 \<or> isspace c)"

text \<open>\<open>^[A-Z][a-z]+(\\s+[A-Z][a-z]+)*$\<close>, as the automaton that reads it: before a word,
  after its capital, inside its lower-case letters, and in the whitespace after a word.\<close>

datatype title_state = Start | Capital | Word | Gap

fun title_case_from :: "title_state \<Rightarrow> str \<Rightarrow> bool" where
  "title_case_from st [] = (st = Word)"
| "title_case_from st (c # cs) =
     (case st of
        Start \<Rightarrow> isupper c \<and> title_case_from Capital cs
      | Capital \<Rightarrow> islower c \<and> title_case_from Word cs
      | Word \<Rightarrow> (if islower c then title_case_from Word cs
                 else if c = 10 \<and> cs = [] then True
                 else isspace c \<and> title_case_from Gap cs)
      | Gap \<Rightarrow> (if isspace c then title_case_from Gap cs
                else isupper c \<and> title_case_from Capital cs))"

definition re_title_case :: "str \<Rightarrow> bool" where
  "re_title_case s = title_case_from Start s"

text \<open>\<open>^[A-Z\\s]+$\<close>\<close>

definition re_all_caps :: "str \<Rightarrow> bool" where
  "re_all_caps s \<longleftrightarrow> s \<noteq> [] \<and> list_all (\<lambda>c. isupper c \<or> isspace c) s"

text \<open>\<open>^\\d+\\.\\d+\<close>\<close>

definition re_decimal :: "str \<Rightarrow> bool" where
  "re_decimal s \<longleftrightarrow>
     takeWhile isdigit s \<noteq> [] \<and>
     (case dropWhile isdigit s of c # d # _ \<Rightarrow> c = 46 \<and> isdigit d | _ \<Rightarrow> False)"

definition positive_patterns :: "(str \<Rightarrow> bool) list" where
  "positive_patterns = [re_numbered, re_title_case, re_all_caps, re_decimal]"

text \<open>\<open>text.endswith(('.', '!', '?', ';'))\<close>\<close>

definition ends_sentence :: "str \<Rightarrow> bool" where
  "ends_sentence text \<longleftrightarrow>
     str_endswith text (u ''.'') \<or> str_endswith text (u ''!'') \<or>
     str_endswith text (u ''?'') \<or> str_endswith text (u '';'')"

definition is_heading :: "real \<Rightarrow> bool \<Rightarrow> span_data \<Rightarrow> bool" where
  "is_heading body_size body_is_bold line =
     (let text = str_strip (sd_text line)
      in if is_bullet_point text then False
         else if text = [] \<or> length text < 3 then False
         else if length (str_split text) > 20 then False
         else if ends_sentence text then False
         else if list_ex (\<lambda>pattern. pattern (str_lower text)) skip_patterns then False
         else if list_ex (\<lambda>keyword. str_contains (str_lower text) keyword) footer_keywords
              then False
         else case sd_spans line of
                [] \<Rightarrow> False
              | main_span # _ \<Rightarrow>
                  let is_larger = (sp_size main_span \<ge> body_size + 0.5);
                      is_emphasized = (is_bold (sp_flags main_span) \<and> \<not> body_is_bold)
                  in if \<not> (is_larger \<or> is_emphasized) then False
                     else if \<not> (isupper (hd text) \<or> isdigit (hd text)) then False
                     else if list_ex (\<lambda>pattern. pattern text) positive_patterns then True
                     else is_larger \<and> (is_emphasized \<or> length (str_split text) \<le> 8))"

section \<open>Section assembly (pdf\_parser.py)\<close>

record assembler =
  current_heading :: "str option"
  current_context :: "str list"
  current_page :: "int option"
  sections :: "pdf_section list"

definition assembler_init :: assembler where
  "assembler_init =
     \<lparr>current_heading = None, current_context = [], current_page = None, sections = []\<rparr>"

text \<open>The truth value of \<open>current_heading\<close>: neither \<open>None\<close> nor the empty string.\<close>

definition heading_open :: "assembler \<Rightarrow> bool" where
  "heading_open st = (case current_heading st of None \<Rightarrow> False | Some h \<Rightarrow> h \<noteq> [])"

definition full_context_of :: "str list \<Rightarrow> str" where
  "full_context_of ctx = str_strip (str_join (u '' '') ctx)"

text \<open>\<open>summarize_text(full_context) if len(full_context.split()) > 40 else full_context\<close>\<close>

definition summarized_of :: "nlp \<Rightarrow> str \<Rightarrow> error + str" where
  "summarized_of lib full_context =
     (if length (str_split full_context) > 40 then summarize_text lib full_context 3
      else Inr full_context)"

text \<open>The block that saves the section in progress; it is written twice in the program,
  in the loop and after it.\<close>

definition save_section :: "nlp \<Rightarrow> assembler \<Rightarrow> error + pdf_section list" where
  "save_section lib st =
     (if heading_open st \<and> current_context st \<noteq> []
      then let full_context = full_context_of (current_context st)
           in if full_context \<noteq> []
              then case summarized_of lib full_context of
                     Inl e \<Rightarrow> Inl e
                   | Inr summarized \<Rightarrow>
                       Inr (sections st @
                            [\<lparr>section_title = current_heading st, context_v = Some full_context,
                              summary = Some summarized, page = current_page st,
                              text_v = current_heading st\<rparr>])
              else Inr (sections st)
      else Inr (sections st))"

fun assemble :: "(span_data \<Rightarrow> bool) \<Rightarrow> nlp \<Rightarrow> assembler \<Rightarrow> span_data list \<Rightarrow> error + assembler" where
  "assemble heading lib st [] = Inr st"
| "assemble heading lib st (line # rest) =
     (if heading line
      then case save_section lib st of
             Inl e \<Rightarrow> Inl e
           | Inr saved \<Rightarrow>
               assemble heading lib
                 \<lparr>current_heading = Some (sd_text line), current_context = [],
                  current_page = Some (sd_page line), sections = saved\<rparr> rest
      else if heading_open st
      then assemble heading lib (st\<lparr>current_context := current_context st @ [sd_text line]\<rparr>) rest
      else assemble heading lib st rest)"

text \<open>\<open>[s for s in sections if len(s['context'].split()) >= 5]\<close>\<close>

fun filter_short :: "pdf_section list \<Rightarrow> error + pdf_section list" where
  "filter_short [] = Inr []"
| "filter_short (s # rest) =
     (case context_v s of
        None \<Rightarrow> Inl KeyError
      | Some c \<Rightarrow>
          (case filter_short rest of
             Inl e \<Rightarrow> Inl e
           | Inr kept \<Rightarrow> Inr (if length (str_split c) \<ge> 5 then s # kept else kept)))"

text \<open>The second half of \<open>extract_headings_with_context\<close>: from the lines of the document
  and the heading test to the sections it returns.\<close>

definition assemble_sections ::
  "(span_data \<Rightarrow> bool) \<Rightarrow> nlp \<Rightarrow> span_data list \<Rightarrow> error + pdf_section list" where
  "assemble_sections heading lib spans_data =
     (case assemble heading lib assembler_init spans_data of
        Inl e \<Rightarrow> Inl e
      | Inr st \<Rightarrow>
          (case save_section lib st of
             Inl e \<Rightarrow> Inl e
           | Inr all_sections \<Rightarrow> filter_short all_sections))"


definition extract_headings_with_context :: "nlp \<Rightarrow> pdf_doc \<Rightarrow> error + pdf_section list" where
  "extract_headings_with_context lib doc =
     (case scan_pages 0 doc ([], []) of
        (spans_data, stats) \<Rightarrow>
          (case body_font stats of
             None \<Rightarrow> Inr []
           | Some (body_size, body_is_bold) \<Rightarrow>
               assemble_sections (is_heading body_size body_is_bold) lib spans_data))"

section \<open>The pipeline (main.py)\<close>

definition skip_headings :: "str list" where
  "skip_headings =
     [u ''acknowledgment'', u ''acknowledgments'', u ''references'', u ''bibliography'',
      u ''table of contents'', u ''index'', u ''appendix'', u ''glossary'',
      u ''about the author'', u ''about this book'', u ''copyright'',
      u ''introduction'', u ''preface'', u ''foreword'']"

definition validate_section :: "pdf_section \<Rightarrow> bool" where
  "validate_section s =
     (let heading = str_strip (heading_of s);
          ctx = str_strip (get_or (context_v s) [])
      in if heading = [] \<or> ctx = [] then False
         else if length (str_split heading) < 2 then False
         else if length (str_split ctx) < 10 then False
         else if str_strip (str_lower heading) \<in> set skip_headings then False
         else True)"

text \<open>\<open>section["document"] = filename\<close>, and \<open>text\<close> set from the title when absent\<close>

definition with_document :: "str \<Rightarrow> pdf_section \<Rightarrow> doc_section" where
  "with_document filename s =
     \<lparr>section_title = section_title s, context_v = context_v s, summary = summary s,
      page = page s,
      text_v = (case text_v s of None \<Rightarrow> Some (get_or (section_title s) []) | Some t \<Rightarrow> Some t),
      document = filename\<rparr>"

text \<open>
  The loop over the input directory. An entry of the listing is a file name with what
  opening it as a PDF gives: the document, or the exception that \<open>fitz.open\<close> raises.
  Any exception while a file is processed skips that file.
\<close>

fun process_files ::
  "nlp \<Rightarrow> (str \<times> (error + pdf_doc)) list \<Rightarrow> doc_section list \<times> str list \<Rightarrow>
   doc_section list \<times> str list" where
  "process_files lib [] acc = acc"
| "process_files lib ((filename, opened) # rest) (all_sections, document_list) =
     (if str_endswith filename (u ''.pdf'')
      then case opened of
             Inl e \<Rightarrow> process_files lib rest (all_sections, document_list)
           | Inr doc \<Rightarrow>
               (case extract_headings_with_context lib doc of
                  Inl e \<Rightarrow> process_files lib rest (all_sections, document_list)
                | Inr secs \<Rightarrow>
                    process_files lib rest
                      (all_sections @ map (with_document filename) (filter validate_section secs),
                       document_list @ [filename]))
      else process_files lib rest (all_sections, document_list))"

text \<open>
  \<open>score_sections\<close> needs the embedding model and the TF-IDF vectoriser; in \<open>main\<close> it
  is the parameter \<open>scorer\<close>, which returns the ranked list or the exception raised.
\<close>

definition main ::
  "nlp \<Rightarrow> (str \<Rightarrow> doc_section list \<Rightarrow> error + (real \<times> doc_section) list) \<Rightarrow> str \<Rightarrow>
   (str \<times> (error + pdf_doc)) list \<Rightarrow> str \<Rightarrow> str \<Rightarrow> combined_output" where
  "main lib scorer now input_dir pers job =
     (case process_files lib input_dir ([], []) of
        (all_sections, document_list) \<Rightarrow>
          if all_sections = []
          then generate_combined_output now document_list pers job []
          else let enhanced_query = u ''Persona: '' @ pers @ u ''. Task: '' @ job;
                   ranked = (case scorer enhanced_query all_sections of
                               Inl e \<Rightarrow> map (\<lambda>s. (0.5, s)) all_sections
                             | Inr scored \<Rightarrow> filter_duplicates scored 0.7)
               in generate_combined_output now document_list pers job ranked)"

section \<open>Headings and their bodies, as the specification counts them\<close>








text \<open>All lines of a document, in reading order.\<close>

definition doc_lines :: "pdf_doc \<Rightarrow> pdf_line list" where
  "doc_lines doc =
     concat (map (\<lambda>pg. concat (map (\<lambda>block. case block of None \<Rightarrow> [] | Some lines \<Rightarrow> lines) pg)) doc)"

text \<open>The entries that the spans of a line add to the font statistics, in order: the
  font key and the word count of every span with text.\<close>

definition span_items :: "pdf_span list \<Rightarrow> (font_key \<times> nat) list" where
  "span_items sps =
     map (\<lambda>sp. ((sp_size sp, is_bold (sp_flags sp)), length (str_split (str_strip (sp_text sp)))))
         (filter (\<lambda>sp. str_strip (sp_text sp) \<noteq> []) sps)"

definition doc_items :: "pdf_doc \<Rightarrow> (font_key \<times> nat) list" where
  "doc_items doc = concat (map (\<lambda>line. span_items (ln_spans line)) (doc_lines doc))"

fun add_items :: "(font_key \<times> nat) list \<Rightarrow> font_stats \<Rightarrow> font_stats" where
  "add_items [] stats = stats"
| "add_items (kn # rest) stats = add_items rest (add_stat (fst kn) (snd kn) stats)"

text \<open>The aggregate word count of a font key.\<close>

definition key_total :: "font_key \<Rightarrow> (font_key \<times> nat) list \<Rightarrow> nat" where
  "key_total k items = sum_list (map snd (filter (\<lambda>kn. fst kn = k) items))"

text \<open>The font key \<open>k\<close> occurs among the entries and has the strictly highest
  aggregate word count.\<close>

definition strict_top :: "font_key \<Rightarrow> (font_key \<times> nat) list \<Rightarrow> bool" where
  "strict_top k items \<longleftrightarrow>
     list_ex (\<lambda>kn. fst kn = k) items \<and>
     list_all (\<lambda>kn. fst kn = k \<or> key_total (fst kn) items < key_total k items) items"

text \<open>A stable \<open>argsort\<close>, one of the orders that \<open>numpy.argsort\<close> may return.\<close>

definition stable_argsort :: "real list \<Rightarrow> nat list" where
  "stable_argsort ws = sort_key (\<lambda>i. ws ! i) [0..<length ws]"

text \<open>What the summariser expects of its libraries on the sentences of one text: one
  weight for each sentence, and from \<open>argsort\<close> the indices ordered by ascending weight.\<close>

definition lib_ok :: "nlp \<Rightarrow> str list \<Rightarrow> real list \<Rightarrow> bool" where
  "lib_ok lib sentences importance \<longleftrightarrow>
     tfidf_importance lib sentences = Some importance \<and>
     length importance = length sentences \<and>
     mset (argsort lib importance) = mset [0..<length importance] \<and>
     sorted (map (\<lambda>i. importance ! i) (argsort lib importance))"

text \<open>
  \<open>chosen\<close> lists, in ascending position, exactly \<open>k\<close> of the sentences with weights
  \<open>importance\<close>, and no sentence left out weighs more than one taken.
\<close>

definition top_selection :: "real list \<Rightarrow> nat \<Rightarrow> nat list \<Rightarrow> bool" where
  "top_selection importance k chosen \<longleftrightarrow>
     length chosen = k \<and> sorted_wrt (<) chosen \<and>
     (\<forall>i \<in> set chosen. i < length importance) \<and>
     (\<forall>i \<in> set chosen. \<forall>j < length importance. j \<notin> set chosen \<longrightarrow> importance ! j \<le> importance ! i)"

section \<open>Example data\<close>

definition score_descending :: "(real \<times> doc_section) list \<Rightarrow> bool" where
  "score_descending xs = sorted_wrt (\<lambda>a b. fst a \<ge> fst b) xs"

definition sec :: "string \<Rightarrow> string \<Rightarrow> int \<Rightarrow> doc_section" where
  "sec d t pg =
     \<lparr>section_title = Some (u t), context_v = Some (u ''body''), summary = Some (u ''body''),
      page = Some pg, text_v = Some (u t), document = u d\<rparr>"

definition two_docs :: "str list" where
  "two_docs = [u ''a.pdf'', u ''b.pdf'']"

definition ranked_ex :: "(real \<times> doc_section) list" where
  "ranked_ex =
     [(0.9, sec ''a.pdf'' ''Alpha One'' 1), (0.8, sec ''a.pdf'' ''Alpha Two'' 2),
      (0.7, sec ''a.pdf'' ''Alpha Three'' 3), (0.6, sec ''b.pdf'' ''Beta One'' 1)]"

definition fixed_lib :: "str list \<Rightarrow> real list \<Rightarrow> nlp" where
  "fixed_lib sentences weights =
     \<lparr>sent_tokenize = (\<lambda>_. sentences), tfidf_importance = (\<lambda>_. Some weights),
      argsort = stable_argsort\<rparr>"

definition mk_span :: "string \<Rightarrow> real \<Rightarrow> int \<Rightarrow> pdf_span" where
  "mk_span t sz fl =
     \<lparr>sp_text = u t, sp_size = sz, sp_flags = fl, sp_font = u ''Helvetica'', sp_bbox = (0, 0, 0, 0)\<rparr>"

definition mk_line :: "string \<Rightarrow> real \<Rightarrow> int \<Rightarrow> pdf_line" where
  "mk_line t sz fl = \<lparr>ln_spans = [mk_span t sz fl], ln_bbox = (0, 0, 0, 0)\<rparr>"

definition mk_data :: "string \<Rightarrow> real \<Rightarrow> int \<Rightarrow> span_data" where
  "mk_data t sz fl =
     \<lparr>sd_text = u t, sd_spans = [mk_span t sz fl], sd_page = 1, sd_bbox = Some (0, 0, 0, 0)\<rparr>"

definition doc_ex :: pdf_doc where
  "doc_ex =
     [[Some [mk_line ''Results Overview'' 14 0,
             mk_line ''The model reaches the best score on every task'' 12 0,
             mk_line ''Future Work'' 14 0,
             mk_line ''too short text'' 12 0]]]"

definition lines_ex :: "span_data list" where
  "lines_ex =
     [mk_data ''Results Overview'' 14 0,
      mk_data ''The model reaches the best score on every task'' 12 0,
      mk_data ''Future Work'' 14 0,
      mk_data ''too short text'' 12 0]"

definition section_ex :: pdf_section where
  "section_ex =
     \<lparr>section_title = Some (u ''Results Overview''),
      context_v = Some (u ''The model reaches the best score on every task''),
      summary = Some (u ''The model reaches the best score on every task''),
      page = Some 1, text_v = Some (u ''Results Overview'')\<rparr>"

definition doc_ex_rev :: pdf_doc where
  "doc_ex_rev =
     [[Some [mk_line ''too short text'' 12 0,
             mk_line ''Future Work'' 14 0,
             mk_line ''The model reaches the best score on every task'' 12 0,
             mk_line ''Results Overview'' 14 0]]]"

definition tie_doc :: pdf_doc where
  "tie_doc = [[Some [mk_line ''alpha beta gamma'' 12 0, mk_line ''delta epsilon zeta'' 10 16]]]"

definition tie_doc_rev :: pdf_doc where
  "tie_doc_rev = [[Some [mk_line ''delta epsilon zeta'' 10 16, mk_line ''alpha beta gamma'' 12 0]]]"

definition spaced_lib :: nlp where
  "spaced_lib = fixed_lib [u ''Alpha  beta gamma.'', u ''Delta epsilon.''] [1.73, 1.41]"

definition story :: "str list" where
  "story = [u ''Cats sleep.'', u ''Dogs bark loudly at night.'', u ''Fish swim fast.'',
            u ''Owls hunt mice in dark woods.'']"

definition story_text :: str where
  "story_text =
     u ''Cats sleep. Dogs bark loudly at night. Fish swim fast. Owls hunt mice in dark woods.''"

definition story_lib :: nlp where
  "story_lib = fixed_lib story [1.41, 2.0, 1.73, 2.24]"

text \<open>A text of stop words only: the vectoriser finds no term and raises.\<close>

definition stopword_text :: str where
  "stopword_text =
     u ''We are all of them here. We are all of them here. We are all of them here. We are all of them here. We are all of them here. We are all of them here. We are all of them here.''"

definition stopword_lib :: nlp where
  "stopword_lib =
     \<lparr>sent_tokenize = (\<lambda>_. replicate 7 (u ''We are all of them here.'')),
      tfidf_importance = (\<lambda>_. None), argsort = stable_argsort\<rparr>"



definition input_dir_ex :: "(str \<times> (error + pdf_doc)) list" where
  "input_dir_ex = [(u ''report.pdf'', Inr doc_ex), (u ''broken.pdf'', Inl OpenError)]"


section \<open>The per-document quota of the first pass\<close>

definition from_doc :: "str \<Rightarrow> (real \<times> doc_section) list \<Rightarrow> nat" where
  "from_doc d ps = length (filter (\<lambda>p. document (snd p) = d) ps)"

definition counts_ok :: "nat \<Rightarrow> selection \<Rightarrow> bool" where
  "counts_ok mpd st \<longleftrightarrow>
     (\<forall>d. get_or (doc_counts st d) 0 = from_doc d (final_sections st)) \<and>
     (\<forall>d. from_doc d (final_sections st) \<le> mpd)"

lemma counts_ok_init: "counts_ok mpd selection_init"
  by (simp add: counts_ok_def selection_init_def from_doc_def get_or_def)

lemma counts_ok_accept:
  assumes "counts_ok mpd st" and "\<not> get_or (doc_counts st (document (snd p))) 0 \<ge> mpd"
  shows "counts_ok mpd (accept st p)"
  using assms by (auto simp: counts_ok_def accept_def from_doc_def get_or_def)

lemma counts_ok_pass1: "counts_ok mpd st \<Longrightarrow> counts_ok mpd (pass1 mpd st ranked)"
proof (induction ranked arbitrary: st)
  case Nil
  then show ?case by simp
next
  case (Cons p rest)
  then show ?case by (simp add: counts_ok_accept)
qed

lemma max_per_doc_le_ceiling:
  assumes "documents \<noteq> []"
  shows "max_per_doc documents \<le> nat \<lceil>real max_sections / real (length documents)\<rceil>"
proof -
  let ?n = "length documents"
  have n: "0 < ?n" using assms by simp
  have "real (max_sections div ?n) \<le> real max_sections / real ?n"
    by (rule of_nat_div_le_of_nat)
  also have "\<dots> \<le> real_of_int \<lceil>real max_sections / real ?n\<rceil>" by simp
  finally have a: "int (max_sections div ?n) \<le> \<lceil>real max_sections / real ?n\<rceil>"
    by (metis of_int_le_iff of_int_of_nat_eq)
  have "0 < real max_sections / real ?n" using n by (simp add: max_sections_def)
  then have b: "1 \<le> \<lceil>real max_sections / real ?n\<rceil>" by linarith
  have c: "max (length documents) 1 = ?n" using assms by (cases documents) (simp_all add: max_def)
  have "int (max 1 (max_sections div ?n)) \<le> \<lceil>real max_sections / real ?n\<rceil>"
    using a b by (simp add: max_def)
  then have "max 1 (max_sections div ?n) \<le> nat \<lceil>real max_sections / real ?n\<rceil>"
    by linarith
  then show ?thesis by (simp only: max_per_doc_def c)
qed

text \<open>
  Claim C1. In the first, non-relaxed pass of the diversity selection, whatever the ranked
  list and whatever the (non-empty) list of source documents, the sections accepted from
  any one document number at most the ceiling of \<open>max_sections\<close> divided by the number of
  documents, \<open>max_sections\<close> being 5.
\<close>

theorem first_pass_quota:
  assumes "documents \<noteq> []"
  shows "from_doc d (final_sections (first_pass documents ranked_sections))
           \<le> nat \<lceil>real max_sections / real (length documents)\<rceil>"
proof -
  have "counts_ok (max_per_doc documents) (first_pass documents ranked_sections)"
    unfolding first_pass_def by (rule counts_ok_pass1) (rule counts_ok_init)
  then have "from_doc d (final_sections (first_pass documents ranked_sections))
               \<le> max_per_doc documents"
    by (simp add: counts_ok_def)
  with max_per_doc_le_ceiling [OF assms] show ?thesis by linarith
qed

theorem first_pass_quota_witness:
  "two_docs \<noteq> [] \<and>
   from_doc (u ''a.pdf'') (final_sections (first_pass two_docs ranked_ex)) \<le> 3"
  using first_pass_quota [of two_docs "u ''a.pdf''" ranked_ex]
  by (simp add: two_docs_def max_sections_def)

section \<open>The relaxation pass and the final order\<close>

lemma max_per_doc_two_docs: "max_per_doc two_docs = 2"
  by code_simp

lemmas selection_simps =
  first_pass_def select_sections_def max_per_doc_two_docs selection_init_def ranked_ex_def
  sec_def accept_def admit_def section_key_def title_of_def title_valid_def str_strip_def
  str_lower_def u_def get_or_def isspace_def lower_char_def isupper_def max_sections_def

lemma pass2_appends: "\<exists>ys. final_sections (pass2 r st xs) = final_sections st @ ys"
proof (induction xs arbitrary: r st)
  case Nil
  then show ?case by simp
next
  case (Cons p rest)
  obtain ys where
    "final_sections (pass2 (r - 1) (admit st p) rest) = final_sections (admit st p) @ ys"
    using Cons.IH by blast
  then have "final_sections (pass2 (r - 1) (admit st p) rest) = final_sections st @ (p # ys)"
    by (simp add: admit_def)
  with Cons.IH [of r st] show ?case by auto
qed

lemma select_sections_appends:
  "\<exists>admitted. select_sections documents ranked
      = final_sections (first_pass documents ranked) @ admitted"
  using pass2_appends [of _ "first_pass documents ranked" ranked]
  by (simp add: select_sections_def Let_def)

lemma ranked_ex_selected:
  "map fst (select_sections two_docs ranked_ex) = [0.9, 0.8, 0.6, 0.7]"
  by (simp add: selection_simps)

lemma ranked_ex_first_pass:
  "map fst (final_sections (first_pass two_docs ranked_ex)) = [0.9, 0.8, 0.6]"
  by (simp add: selection_simps)

lemma ranked_ex_ranks:
  "map (\<lambda>e. (es_section_title e, importance_rank e))
     (extracted_sections (generate_combined_output now two_docs pers job ranked_ex)) =
   [(u ''Alpha One'', 1), (u ''Alpha Two'', 2), (u ''Beta One'', 3), (u ''Alpha Three'', 4)]"
  by (simp add: generate_combined_output_def extracted_of_def enumerate_eq_zip upt_rec
      selection_simps)

text \<open>
  Claim C10. The final list is the list of first-pass picks followed by the sections that
  the relaxation pass admits, so it need not be score-descending. In the example, two
  documents give a quota of two: of the three sections of \<open>a.pdf\<close> (scores 0.9, 0.8, 0.7)
  the third is skipped in the first pass for the quota alone, the section of \<open>b.pdf\<close>
  (score 0.6) is accepted, and the relaxation pass then admits the skipped section, which
  gets rank 4 behind the lower-scoring section of rank 3.
\<close>

theorem relaxed_picks_follow_first_pass:
  "(\<forall>documents ranked. \<exists>admitted.
      select_sections documents ranked = final_sections (first_pass documents ranked) @ admitted) \<and>
   score_descending ranked_ex \<and>
   map fst (final_sections (first_pass two_docs ranked_ex)) = [0.9, 0.8, 0.6] \<and>
   map fst (select_sections two_docs ranked_ex) = [0.9, 0.8, 0.6, 0.7] \<and>
   \<not> score_descending (select_sections two_docs ranked_ex) \<and>
   map (\<lambda>e. (es_section_title e, importance_rank e))
     (extracted_sections (generate_combined_output now two_docs pers job ranked_ex)) =
   [(u ''Alpha One'', 1), (u ''Alpha Two'', 2), (u ''Beta One'', 3), (u ''Alpha Three'', 4)]"
proof -
  have a: "\<forall>documents ranked. \<exists>admitted.
      select_sections documents ranked = final_sections (first_pass documents ranked) @ admitted"
    using select_sections_appends by blast
  have b: "score_descending ranked_ex"
    by (simp add: ranked_ex_def score_descending_def)
  have c: "\<not> score_descending (select_sections two_docs ranked_ex)"
    by (simp add: score_descending_def selection_simps)
  show ?thesis
    using a b c ranked_ex_first_pass ranked_ex_selected ranked_ex_ranks by blast
qed

section \<open>The duplicate filter\<close>

lemma dedup_loop_acc: "dedup_loop t filtered seen xs = filtered @ dedup_loop t [] seen xs"
proof (induction xs arbitrary: filtered seen)
  case Nil
  then show ?case by simp
next
  case (Cons p rest)
  show ?case
  proof (cases "is_duplicate t (dedup_heading (snd p)) seen")
    case True
    then show ?thesis using Cons.IH [of filtered seen] by simp
  next
    case False
    have "dedup_loop t (filtered @ [p]) (seen @ [dedup_heading (snd p)]) rest
            = (filtered @ [p]) @ dedup_loop t [] (seen @ [dedup_heading (snd p)]) rest"
      by (rule Cons.IH)
    moreover have "dedup_loop t [p] (seen @ [dedup_heading (snd p)]) rest
            = [p] @ dedup_loop t [] (seen @ [dedup_heading (snd p)]) rest"
      by (rule Cons.IH)
    ultimately show ?thesis using False by simp
  qed
qed

lemma dedup_loop_idem:
  "dedup_loop t [] seen (dedup_loop t [] seen xs) = dedup_loop t [] seen xs"
proof (induction xs arbitrary: seen)
  case Nil
  then show ?case by simp
next
  case (Cons p rest)
  show ?case
  proof (cases "is_duplicate t (dedup_heading (snd p)) seen")
    case True
    then show ?thesis using Cons.IH [of seen] by simp
  next
    case False
    let ?seen' = "seen @ [dedup_heading (snd p)]"
    have step: "dedup_loop t [] seen (p # ys) = p # dedup_loop t [] ?seen' ys" for ys
      using False dedup_loop_acc [of t "[p]" ?seen' ys] by simp
    show ?thesis using Cons.IH [of ?seen'] by (simp only: step)
  qed
qed

text \<open>
  Claim C5. The duplicate filter is idempotent: filtering its own output again with the
  same threshold changes nothing, for every list of scored sections (score-descending or
  not) and every threshold.
\<close>

theorem filter_duplicates_idempotent:
  "filter_duplicates (filter_duplicates ranked_results similarity_threshold) similarity_threshold
     = filter_duplicates ranked_results similarity_threshold"
  by (simp add: filter_duplicates_def dedup_loop_idem)

section \<open>The weight of the keyword overlap\<close>

lemmas keyword_simps =
  total_score_def keyword_bonus_def keyword_overlap_def heading_bonus_def length_bonus_def
  str_split_def findall_words_def str_lower_def u_def lower_char_def isupper_def isword_def
  islower_def isdigit_def isspace_def

text \<open>
  Claim C2 as stated, with the keyword overlap weighted 0.10 in the composite score, fails:
  for the query \<open>learn basics\<close> and a section text holding both words the overlap is 1,
  and with every other component zero the score is 0.02, not 0.10.
\<close>

theorem keyword_weight_counterexample:
  "total_score 0 0 (u ''learn basics'') (u ''Basics. learn now'') 0 [] [] = 0.02 \<and>
   total_score 0 0 (u ''learn basics'') (u ''Basics. learn now'') 0 [] [] \<noteq>
     0.4 * 0 + 0.3 * 0 +
     0.10 * (real (card (set (findall_words (str_lower (u ''learn basics''))) \<inter>
                         set (findall_words (str_lower (u ''Basics. learn now'')))))
             / real (max (card (set (findall_words (str_lower (u ''learn basics''))))) 1)) +
     0.1 * 0 + 0.05 * heading_bonus [] + 0.05 * length_bonus []"
  by (simp add: keyword_simps)

text \<open>
  Claim C2, amended. The score adds 0.1 times \<open>keyword_bonus\<close>, and \<open>keyword_bonus\<close> is
  0.2 times the overlap, so the keyword-overlap component of the composite score is 0.02
  times the number of query words found among the section's words, divided by the number
  of query words (or by 1 when there is none); both word sets are the \<open>\\w+\<close> tokens of
  the lower-cased text.
\<close>

theorem keyword_component_weight:
  "total_score semantic_score tfidf_score query enhanced_text pos_bonus heading content =
     0.4 * semantic_score + 0.3 * tfidf_score +
     0.02 * (real (card (set (findall_words (str_lower query)) \<inter>
                         set (findall_words (str_lower enhanced_text))))
             / real (max (card (set (findall_words (str_lower query)))) 1)) +
     0.1 * pos_bonus + 0.05 * heading_bonus heading + 0.05 * length_bonus content"
  by (simp add: total_score_def keyword_bonus_def keyword_overlap_def Let_def)

section \<open>Evaluation of the examples\<close>

lemmas char_simps =
  u_def isspace_def isupper_def islower_def isdigit_def isword_def lower_char_def
  str_lower_def str_strip_def str_split_def str_endswith_def

lemmas heading_simps =
  is_heading_def Let_def is_bullet_point_def bullet_starts_def re_enumerated_def
  re_letter_paren_def re_number_def re_roman_def is_roman_def re_lower_bullet_def
  re_parenthesized_def re_bullet_def re_blank_def re_word_then_def skip_patterns_def
  footer_keywords_def re_numbered_def re_title_case_def re_all_caps_def re_decimal_def
  positive_patterns_def ends_sentence_def at_end_def is_bold_def mk_data_def mk_span_def

lemma lines_ex_headings:
  "is_heading 12 False (mk_data ''Results Overview'' 14 0)"
  "\<not> is_heading 12 False (mk_data ''The model reaches the best score on every task'' 12 0)"
  "is_heading 12 False (mk_data ''Future Work'' 14 0)"
  "\<not> is_heading 12 False (mk_data ''too short text'' 12 0)"
  by (simp_all add: heading_simps char_simps)

lemma mk_data_sel: "sd_text (mk_data t sz fl) = u t" "sd_page (mk_data t sz fl) = 1"
  by (simp_all add: mk_data_def)

lemma lines_ex_sections:
  "assemble_sections (is_heading 12 False) (fixed_lib [] []) lines_ex = Inr [section_ex]"
  by (simp add: assemble_sections_def lines_ex_def lines_ex_headings mk_data_sel assembler_init_def
      heading_open_def save_section_def full_context_of_def summarized_of_def section_ex_def
      Let_def char_simps)


lemma doc_ex_scan:
  "scan_pages 0 doc_ex ([], []) = (lines_ex, [((14, False), 4), ((12, False), 12)])"
  by (simp add: doc_ex_def lines_ex_def mk_line_def mk_data_def mk_span_def is_bold_def char_simps)

lemma doc_ex_sections:
  "extract_headings_with_context (fixed_lib [] []) doc_ex = Inr [section_ex]"
  by (simp add: extract_headings_with_context_def doc_ex_scan body_font_def lines_ex_sections)

lemma section_ex_invalid: "\<not> validate_section section_ex"
  by (simp add: validate_section_def section_ex_def heading_of_def get_or_def Let_def char_simps)

lemma input_dir_ex_files:
  "process_files (fixed_lib [] []) input_dir_ex ([], []) = ([], [u ''report.pdf''])"
  by (simp add: input_dir_ex_def doc_ex_sections section_ex_invalid)
     (simp add: char_simps)

section \<open>The number of sections the assembler emits\<close>


































section \<open>The five-word minimum of returned sections\<close>

lemma filter_short_words:
  "filter_short xs = Inr ys \<Longrightarrow> s \<in> set ys \<Longrightarrow> \<exists>c. context_v s = Some c \<and> 5 \<le> length (str_split c)"
proof (induction xs arbitrary: ys)
  case Nil
  then show ?case by simp
next
  case (Cons x xs)
  then show ?case
    by (auto split: option.splits sum.splits if_splits)
qed

text \<open>
  Claim C9. Every section that \<open>extract_headings_with_context\<close> returns has a context of
  at least five whitespace-separated words.
\<close>

theorem returned_sections_have_five_words:
  assumes "extract_headings_with_context lib doc = Inr secs"
  shows "\<forall>s \<in> set secs. \<exists>c. context_v s = Some c \<and> 5 \<le> length (str_split c)"
proof
  fix s assume s: "s \<in> set secs"
  obtain spans_data stats where sc: "scan_pages 0 doc ([], []) = (spans_data, stats)"
    by (cases "scan_pages 0 doc ([], [])")
  show "\<exists>c. context_v s = Some c \<and> 5 \<le> length (str_split c)"
  proof (cases "body_font stats")
    case None
    then show ?thesis using assms s sc by (simp add: extract_headings_with_context_def)
  next
    case (Some bf)
    obtain bs bb where bf: "bf = (bs, bb)" by (cases bf)
    have "assemble_sections (is_heading bs bb) lib spans_data = Inr secs"
      using assms sc Some bf by (simp add: extract_headings_with_context_def)
    then obtain all_sections where "filter_short all_sections = Inr secs"
      by (auto simp: assemble_sections_def split: sum.splits)
    then show ?thesis using s filter_short_words by blast
  qed
qed

theorem returned_sections_have_five_words_witness:
  "extract_headings_with_context (fixed_lib [] []) doc_ex = Inr [section_ex] \<and>
   context_v section_ex = Some (u ''The model reaches the best score on every task'') \<and>
   5 \<le> length (str_split (u ''The model reaches the best score on every task''))"
  using doc_ex_sections returned_sections_have_five_words [OF doc_ex_sections]
  by (simp add: section_ex_def)

section \<open>Lines that end a sentence\<close>

lemma str_endswith_single: "str_endswith t [c] \<longleftrightarrow> (\<exists>xs. t = xs @ [c])"
proof
  assume "str_endswith t [c]"
  then show "\<exists>xs. t = xs @ [c]"
    by (cases t rule: rev_cases) (auto simp: str_endswith_def)
next
  assume "\<exists>xs. t = xs @ [c]"
  then show "str_endswith t [c]"
    by (auto simp: str_endswith_def)
qed

lemma str_strip_snoc: "\<not> isspace c \<Longrightarrow> str_strip (xs @ [c]) = dropWhile isspace xs @ [c]"
  by (simp add: str_strip_def dropWhile_append3)

lemma str_endswith_strip:
  assumes "str_endswith t [c]" and "\<not> isspace c"
  shows "str_endswith (str_strip t) [c]"
proof -
  obtain xs where "t = xs @ [c]" using assms(1) str_endswith_single by blast
  then have "str_strip t = dropWhile isspace xs @ [c]" using assms(2) by (simp add: str_strip_snoc)
  then show ?thesis using str_endswith_single by blast
qed

lemma ends_sentence_strip: "ends_sentence t \<Longrightarrow> ends_sentence (str_strip t)"
  unfolding ends_sentence_def u_def
  by (auto simp: isspace_def intro: str_endswith_strip)

text \<open>
  Claim C8. A line whose text ends in \<open>.\<close>, \<open>!\<close>, \<open>?\<close> or \<open>;\<close> is never a heading,
  whatever its font size, its boldness, its other attributes and the body font of the
  document.
\<close>

theorem punctuated_line_is_no_heading:
  assumes "ends_sentence (sd_text line)"
  shows "\<not> is_heading body_size body_is_bold line"
  using ends_sentence_strip [OF assms] by (simp add: is_heading_def Let_def)

theorem punctuated_line_is_no_heading_witness:
  "ends_sentence (sd_text (mk_data ''Results Of The Study.'' 20 16)) \<and>
   \<not> is_heading 12 False (mk_data ''Results Of The Study.'' 20 16)"
proof -
  have a: "ends_sentence (sd_text (mk_data ''Results Of The Study.'' 20 16))"
    by (simp add: mk_data_def ends_sentence_def char_simps)
  show ?thesis using a punctuated_line_is_no_heading [OF a] by simp
qed

section \<open>A run without valid sections\<close>

text \<open>
  Claim C7. When no valid section comes out of the input files, the pipeline still writes
  its output document: the two section lists are empty, and the metadata holds the list of
  the documents read, the persona, the job and the timestamp.
\<close>

theorem empty_run_output:
  assumes "fst (process_files lib input_dir ([], [])) = []"
  shows "main lib scorer now input_dir pers job =
     \<lparr>metadata = \<lparr>input_documents = snd (process_files lib input_dir ([], [])), persona = pers,
                   job_to_be_done = job, processing_timestamp = now @ u ''Z''\<rparr>,
      extracted_sections = [], subsection_analysis = []\<rparr>"
  using assms
  by (cases "process_files lib input_dir ([], [])")
     (simp add: main_def generate_combined_output_def)

theorem empty_run_output_witness:
  "fst (process_files (fixed_lib [] []) input_dir_ex ([], [])) = [] \<and>
   main (fixed_lib [] []) (\<lambda>q ss. Inl ValueError) (u ''2024-01-01T00:00:00'') input_dir_ex
        (u ''Student'') (u ''Learn basics'') =
     \<lparr>metadata = \<lparr>input_documents = [u ''report.pdf''], persona = u ''Student'',
                   job_to_be_done = u ''Learn basics'',
                   processing_timestamp = u ''2024-01-01T00:00:00'' @ u ''Z''\<rparr>,
      extracted_sections = [], subsection_analysis = []\<rparr>"
proof -
  have a: "fst (process_files (fixed_lib [] []) input_dir_ex ([], [])) = []"
    by (simp add: input_dir_ex_files)
  show ?thesis
    using a empty_run_output [OF a, of "\<lambda>q ss. Inl ValueError" "u ''2024-01-01T00:00:00''"
        "u ''Student''" "u ''Learn basics''"]
    by (simp add: input_dir_ex_files)
qed

section \<open>The body font and the order of the lines\<close>

lemma add_items_append: "add_items (xs @ ys) st = add_items ys (add_items xs st)"
  by (induction xs arbitrary: st) auto

lemma scan_spans_stats:
  "snd (snd (scan_spans sps acc)) = add_items (span_items sps) (snd (snd acc))"
proof (induction sps arbitrary: acc)
  case Nil
  then show ?case by (simp add: span_items_def)
next
  case (Cons sp sps)
  obtain t ls st where acc: "acc = (t, ls, st)" by (cases acc)
  show ?case using Cons.IH by (simp add: acc span_items_def Let_def)
qed

lemma scan_lines_stats:
  "snd (scan_lines pg ls acc) = add_items (concat (map (\<lambda>line. span_items (ln_spans line)) ls)) (snd acc)"
proof (induction ls arbitrary: acc)
  case Nil
  then show ?case by simp
next
  case (Cons line ls)
  obtain sd st where acc: "acc = (sd, st)" by (cases acc)
  obtain t sp st' where sc: "scan_spans (ln_spans line) ([], [], st) = (t, sp, st')"
    by (cases "scan_spans (ln_spans line) ([], [], st)")
  have "st' = add_items (span_items (ln_spans line)) st"
    using scan_spans_stats [of "ln_spans line" "([], [], st)"] sc by simp
  then show ?case using Cons.IH by (simp add: acc sc add_items_append)
qed

lemma scan_blocks_stats:
  "snd (scan_blocks pg bs acc) =
     add_items (concat (map (\<lambda>line. span_items (ln_spans line))
                  (concat (map (\<lambda>block. case block of None \<Rightarrow> [] | Some lines \<Rightarrow> lines) bs))))
               (snd acc)"
proof (induction bs arbitrary: acc)
  case Nil
  then show ?case by simp
next
  case (Cons b bs)
  then show ?case by (cases b) (simp_all add: scan_lines_stats add_items_append)
qed

lemma scan_pages_stats:
  "snd (scan_pages n doc acc) = add_items (doc_items doc) (snd acc)"
proof (induction doc arbitrary: n acc)
  case Nil
  then show ?case by (simp add: doc_items_def doc_lines_def)
next
  case (Cons pg doc)
  have "doc_items (pg # doc) = doc_items [pg] @ doc_items doc"
    by (simp add: doc_items_def doc_lines_def)
  moreover have "snd (scan_blocks (n + 1) pg acc) = add_items (doc_items [pg]) (snd acc)"
    by (simp add: scan_blocks_stats doc_items_def doc_lines_def)
  ultimately show ?case using Cons.IH by (simp add: add_items_append)
qed

lemma doc_font_stats_items: "doc_font_stats doc = add_items (doc_items doc) []"
  by (simp add: doc_font_stats_def scan_pages_stats)

lemma add_stat_keys: "fst ` set (add_stat k n st) = insert k (fst ` set st)"
  by (induction st) auto

lemma add_stat_distinct: "distinct (map fst st) \<Longrightarrow> distinct (map fst (add_stat k n st))"
proof (induction st)
  case Nil
  then show ?case by simp
next
  case (Cons kv st)
  then show ?case using add_stat_keys [of k n st] by (auto simp: image_iff)
qed

lemma add_stat_map_of:
  "map_of (add_stat k n st) = (map_of st)(k \<mapsto> (case map_of st k of None \<Rightarrow> 0 | Some v \<Rightarrow> v) + n)"
proof (induction st)
  case Nil
  then show ?case by simp
next
  case (Cons kv st)
  then show ?case by (cases kv) (auto simp: fun_eq_iff)
qed

lemma add_items_distinct: "distinct (map fst st) \<Longrightarrow> distinct (map fst (add_items items st))"
  by (induction items arbitrary: st) (auto simp: add_stat_distinct)

lemma add_items_map_of:
  "map_of (add_items items st) k =
     (if k \<in> fst ` set items \<or> k \<in> dom (map_of st)
      then Some ((case map_of st k of None \<Rightarrow> 0 | Some v \<Rightarrow> v) + key_total k items) else None)"
proof (induction items arbitrary: st)
  case Nil
  then show ?case by (auto simp: key_total_def split: option.splits)
next
  case (Cons kn items)
  show ?case
    by (simp add: Cons.IH add_stat_map_of key_total_def split: option.splits) (auto simp: domIff)
qed

lemma key_total_mset:
  "key_total k items = sum_mset (image_mset snd (filter_mset (\<lambda>kn. fst kn = k) (mset items)))"
  by (simp add: key_total_def flip: sum_mset_sum_list)

lemma doc_items_mset:
  assumes "mset (doc_lines d1) = mset (doc_lines d2)"
  shows "mset (doc_items d1) = mset (doc_items d2)"
proof -
  have "mset (doc_items d) =
          sum_mset (image_mset (\<lambda>line. mset (span_items (ln_spans line))) (mset (doc_lines d)))" for d
    by (simp add: doc_items_def mset_concat comp_def flip: sum_mset_sum_list)
  then show ?thesis using assms by simp
qed

lemma max_from_in: "max_from best rest \<in> set (best # rest)"
  by (induction rest arbitrary: best) (auto split: if_splits)

lemma max_from_ge: "kv \<in> set (best # rest) \<Longrightarrow> snd kv \<le> snd (max_from best rest)"
proof (induction rest arbitrary: best kv)
  case Nil
  then show ?case by simp
next
  case (Cons x rest)
  show ?case
  proof (cases "snd x > snd best")
    case True
    have "snd kv \<le> snd (max_from x rest)"
    proof (cases "kv = best")
      case True
      have "snd x \<le> snd (max_from x rest)" by (rule Cons.IH) simp
      then show ?thesis using True \<open>snd x > snd best\<close> by simp
    next
      case False
      then have "kv \<in> set (x # rest)" using Cons.prems by auto
      then show ?thesis by (rule Cons.IH)
    qed
    then show ?thesis using True by simp
  next
    case False
    have "snd kv \<le> snd (max_from best rest)"
    proof (cases "kv = x")
      case True
      have "snd best \<le> snd (max_from best rest)" by (rule Cons.IH) simp
      then show ?thesis using True False by simp
    next
      case kx: False
      then have "kv \<in> set (best # rest)" using Cons.prems by auto
      then show ?thesis by (rule Cons.IH)
    qed
    then show ?thesis using False by simp
  qed
qed

lemma body_font_top:
  assumes "body_font stats = Some k"
  shows "\<exists>v. (k, v) \<in> set stats \<and> (\<forall>kv \<in> set stats. snd kv \<le> v)"
proof (cases stats)
  case Nil
  then show ?thesis using assms by (simp add: body_font_def)
next
  case (Cons b rest)
  then have k: "k = fst (max_from b rest)" using assms by (simp add: body_font_def)
  have "max_from b rest \<in> set stats" using max_from_in [of b rest] Cons by simp
  moreover have "\<forall>kv \<in> set stats. snd kv \<le> snd (max_from b rest)"
    using max_from_ge [of _ b rest] Cons by simp
  ultimately show ?thesis using k by (metis prod.collapse)
qed

lemma tie_fonts:
  "doc_body_font tie_doc = Some (12, False)" "doc_body_font tie_doc_rev = Some (10, True)"
  by (simp_all add: doc_body_font_def doc_font_stats_def body_font_def tie_doc_def tie_doc_rev_def
      mk_line_def mk_span_def is_bold_def char_simps)

lemma add_items_entries:
  "(k, v) \<in> set (add_items items []) \<longleftrightarrow> k \<in> fst ` set items \<and> v = key_total k items"
proof -
  have d: "distinct (map fst (add_items items []))" by (simp add: add_items_distinct)
  have "(k, v) \<in> set (add_items items []) \<longleftrightarrow> map_of (add_items items []) k = Some v"
    using d by simp
  also have "\<dots> \<longleftrightarrow> k \<in> fst ` set items \<and> v = key_total k items"
    by (auto simp: add_items_map_of)
  finally show ?thesis .
qed

lemma strict_top_iff:
  "strict_top k items \<longleftrightarrow>
     k \<in> fst ` set items \<and>
     (\<forall>k' \<in> fst ` set items. k' \<noteq> k \<longrightarrow> key_total k' items < key_total k items)"
  by (auto simp: strict_top_def list_ex_iff list_all_iff)

lemma body_font_strict_top:
  assumes "strict_top k items"
  shows "body_font (add_items items []) = Some k"
proof -
  let ?s = "add_items items []"
  have k: "k \<in> fst ` set items"
    and lt: "\<And>k'. k' \<in> fst ` set items \<Longrightarrow> k' \<noteq> k \<Longrightarrow> key_total k' items < key_total k items"
    using assms by (auto simp: strict_top_iff)
  have kin: "(k, key_total k items) \<in> set ?s" using k by (simp add: add_items_entries)
  then have "?s \<noteq> []" by auto
  then obtain k0 where k0: "body_font ?s = Some k0"
    by (cases ?s) (simp_all add: body_font_def)
  then obtain v where v: "(k0, v) \<in> set ?s" "\<forall>kv \<in> set ?s. snd kv \<le> v"
    using body_font_top by blast
  have v0: "k0 \<in> fst ` set items" "v = key_total k0 items"
    using v(1) by (simp_all add: add_items_entries)
  have "key_total k items \<le> key_total k0 items" using v(2) kin v0(2) by auto
  then have "k0 = k" using lt [OF v0(1)] by (cases "k0 = k") auto
  then show ?thesis using k0 by simp
qed

lemma strict_top_mset:
  assumes "mset items1 = mset items2" and "strict_top k items1"
  shows "strict_top k items2"
proof -
  have s: "set items1 = set items2" using assms(1) by (rule mset_eq_setD)
  have t: "key_total k' items1 = key_total k' items2" for k'
    by (simp add: key_total_mset assms(1))
  show ?thesis using assms(2) by (simp add: strict_top_iff s t)
qed

lemma doc_ex_items:
  "doc_items doc_ex = [((14, False), 2), ((12, False), 9), ((14, False), 2), ((12, False), 3)]"
  by (simp add: doc_items_def doc_lines_def doc_ex_def span_items_def mk_line_def mk_span_def
      is_bold_def char_simps)

text \<open>
  Claim C4 as stated fails. The two example documents hold the same two lines in opposite
  orders; each line has three words, in its own font. On a tie \<open>max\<close> keeps the font
  met first, so the body font is (12, regular) for one order and (10, bold) for the other.
\<close>

theorem body_font_order_counterexample:
  "mset (doc_lines tie_doc) = mset (doc_lines tie_doc_rev) \<and>
   doc_body_font tie_doc = Some (12, False) \<and>
   doc_body_font tie_doc_rev = Some (10, True)"
  by (simp add: tie_fonts) (simp add: doc_lines_def tie_doc_def tie_doc_rev_def)

text \<open>
  Claim C4, amended. When one (size, bold) pair alone has the highest aggregate word count
  of a document, the body font is that pair, whatever the order of the document's lines:
  every document with the same lines, in any order and any grouping into blocks and pages,
  has this pair as its body font.
\<close>

theorem body_font_is_top_pair:
  assumes lines: "mset (doc_lines d1) = mset (doc_lines d2)"
      and top: "strict_top k (doc_items d1)"
  shows "doc_body_font d1 = Some k \<and> doc_body_font d2 = Some k"
proof -
  have "strict_top k (doc_items d2)"
    using doc_items_mset [OF lines] top by (rule strict_top_mset)
  then show ?thesis
    using top by (simp add: doc_body_font_def doc_font_stats_items body_font_strict_top)
qed

theorem body_font_is_top_pair_witness:
  "mset (doc_lines doc_ex) = mset (doc_lines doc_ex_rev) \<and>
   strict_top (12, False) (doc_items doc_ex) \<and>
   doc_body_font doc_ex = Some (12, False) \<and>
   doc_body_font doc_ex_rev = Some (12, False)"
proof -
  have a: "mset (doc_lines doc_ex) = mset (doc_lines doc_ex_rev)"
    by (simp add: doc_lines_def doc_ex_def doc_ex_rev_def)
  have b: "strict_top (12, False) (doc_items doc_ex)"
    by (simp add: doc_ex_items strict_top_def key_total_def)
  show ?thesis using a b body_font_is_top_pair [OF a b] by simp
qed

section \<open>The sentences of a summary\<close>

lemma stable_argsort_ok:
  "mset (stable_argsort ws) = mset [0..<length ws]"
  "sorted (map (\<lambda>i. ws ! i) (stable_argsort ws))"
  by (simp_all add: stable_argsort_def)

lemma fixed_lib_ok: "length ws = length ss \<Longrightarrow> lib_ok (fixed_lib ss ws) ss ws"
  by (simp add: lib_ok_def fixed_lib_def stable_argsort_ok)

lemma summarize_short:
  "int (length (sent_tokenize lib text)) \<le> k \<Longrightarrow> summarize_text lib text k = Inr (clean_text text)"
  by (simp add: summarize_text_def)

lemma summarize_long:
  assumes k: "0 \<le> k" "k < int (length (sent_tokenize lib text))"
      and ok: "lib_ok lib (sent_tokenize lib text) importance"
  shows "\<exists>chosen. summarize_text lib text k =
            Inr (clean_text (str_join (u '' '') (map (\<lambda>i. sent_tokenize lib text ! i) chosen))) \<and>
          top_selection importance (nat k) chosen"
proof -
  let ?ss = "sent_tokenize lib text"
  let ?n = "length ?ss"
  let ?a = "argsort lib importance"
  let ?ranked = "rev ?a"
  let ?c0 = "take (nat k) ?ranked"
  let ?chosen = "sort ?c0"
  have tf: "tfidf_importance lib ?ss = Some importance" and len: "length importance = ?n"
    and perm: "mset ?a = mset [0..<?n]" and srt: "sorted (map (\<lambda>i. importance ! i) ?a)"
    using ok by (simp_all add: lib_ok_def)
  have set_a: "set ?a = {0..<?n}" using mset_eq_setD [OF perm] by simp
  have dist_a: "distinct ?a" using perm by (metis distinct_upt mset_eq_imp_distinct_iff)
  have len_a: "length ?a = ?n" using mset_eq_length [OF perm] by simp
  have kn: "nat k < ?n" using k by linarith
  have take: "py_take k ?ranked = ?c0" using k by (simp add: py_take_def)
  have sub: "set ?c0 \<subseteq> {0..<?n}" using set_take_subset [of "nat k" ?ranked] set_a by auto
  then have inr: "list_all (\<lambda>i. i < ?n) ?chosen" by (auto simp: list_all_iff)
  have res: "summarize_text lib text k =
               Inr (clean_text (str_join (u '' '') (map (\<lambda>i. ?ss ! i) ?chosen)))"
    using k tf take inr by (simp add: summarize_text_def Let_def)
  have l: "length ?chosen = nat k" using kn len_a by simp
  have s: "sorted_wrt (<) ?chosen" using dist_a by (simp add: strict_sorted_iff)
  have desc: "sorted_wrt (\<lambda>x y. importance ! y \<le> importance ! x) ?ranked"
    using srt by (simp add: sorted_map sorted_wrt_rev)
  have "sorted_wrt (\<lambda>x y. importance ! y \<le> importance ! x) (?c0 @ drop (nat k) ?ranked)"
    using desc by simp
  then have cross: "\<forall>x \<in> set ?c0. \<forall>y \<in> set (drop (nat k) ?ranked). importance ! y \<le> importance ! x"
    by (simp only: sorted_wrt_append) blast
  have top: "importance ! j \<le> importance ! i"
    if "i \<in> set ?chosen" "j < length importance" "j \<notin> set ?chosen" for i j
  proof -
    have "j \<in> set ?ranked" using that(2) len set_a by simp
    then have "j \<in> set (?c0 @ drop (nat k) ?ranked)" by simp
    then have "j \<in> set (drop (nat k) ?ranked)" using that(3) by (simp only: set_append) simp
    then show ?thesis using cross that(1) by simp
  qed
  have "top_selection importance (nat k) ?chosen"
    unfolding top_selection_def using l s sub len top by auto
  then show ?thesis using res by blast
qed

lemmas summary_simps =
  summarize_text_def fixed_lib_def stable_argsort_def py_take_def clean_text_def Let_def

lemma story_ok: "lib_ok story_lib (sent_tokenize story_lib story_text) [1.41, 2.0, 1.73, 2.24]"
  using fixed_lib_ok [of "[1.41, 2.0, 1.73, 2.24]" story]
  by (simp add: story_lib_def fixed_lib_def story_def)

lemma story_summary:
  "summarize_text story_lib story_text 2
     = Inr (u ''Dogs bark loudly at night. Owls hunt mice in dark woods.'')"
  by (simp add: summary_simps story_lib_def story_def char_simps)

lemma story_text_clean: "clean_text story_text = story_text"
  by (simp add: clean_text_def story_text_def char_simps)

text \<open>
  Claim C6 as stated fails, in three ways.
  \<^item> The first text has two sentences, the first with two spaces between its first words;
    their weights are about 1.73 and 1.41 (TF-IDF row sums of three and of two terms). With
    \<open>max_sentences = 1\<close> the summary is the first sentence with its whitespace
    normalised, which is none of the sentences of the text.
  \<^item> With \<open>max_sentences = -1\<close> the slice drops the last index, and the summary of the
    four-sentence text has three sentences.
  \<^item> The third text has seven sentences of stop words only: the vectoriser raises, and the
    function raises instead of returning.
\<close>

theorem summary_counterexample:
  "summarize_text spaced_lib (u ''Alpha  beta gamma. Delta epsilon.'') 1 = Inr (u ''Alpha beta gamma.'') \<and>
   sent_tokenize spaced_lib (u ''Alpha  beta gamma. Delta epsilon.'')
     = [u ''Alpha  beta gamma.'', u ''Delta epsilon.''] \<and>
   u ''Alpha beta gamma.'' \<noteq> u ''Alpha  beta gamma.'' \<and>
   u ''Alpha beta gamma.'' \<noteq> u ''Delta epsilon.'' \<and>
   summarize_text story_lib story_text (- 1)
     = Inr (u ''Dogs bark loudly at night. Fish swim fast. Owls hunt mice in dark woods.'') \<and>
   summarize_text stopword_lib stopword_text 3 = Inl ValueError"
proof -
  have a: "summarize_text spaced_lib (u ''Alpha  beta gamma. Delta epsilon.'') 1
             = Inr (u ''Alpha beta gamma.'')"
    by (simp add: summary_simps spaced_lib_def char_simps)
  have b: "sent_tokenize spaced_lib (u ''Alpha  beta gamma. Delta epsilon.'')
             = [u ''Alpha  beta gamma.'', u ''Delta epsilon.'']"
    by (simp add: spaced_lib_def fixed_lib_def)
  have c: "u ''Alpha beta gamma.'' \<noteq> u ''Alpha  beta gamma.''"
          "u ''Alpha beta gamma.'' \<noteq> u ''Delta epsilon.''"
    by (simp_all add: u_def)
  have d: "summarize_text story_lib story_text (- 1)
             = Inr (u ''Dogs bark loudly at night. Fish swim fast. Owls hunt mice in dark woods.'')"
    by (simp add: summary_simps story_lib_def story_def char_simps)
  have e: "summarize_text stopword_lib stopword_text 3 = Inl ValueError"
    by (simp add: summarize_text_def stopword_lib_def)
  show ?thesis using a b c d e by simp
qed

text \<open>
  Claim C6, amended. When the text has at most \<open>max_sentences\<close> sentences, the summary
  is the whitespace-normalised text. Otherwise, when \<open>max_sentences\<close> is not negative and
  the vectoriser returns the weights of the sentences (with \<open>argsort\<close> ordering them by
  ascending weight), the summary is the whitespace-normalised join, by single spaces, of
  exactly \<open>max_sentences\<close> sentences taken in ascending position, none of the sentences
  left out weighing more than one taken.
\<close>

theorem summarize_text_selection:
  "(int (length (sent_tokenize lib text)) \<le> max_sentences \<longrightarrow>
      summarize_text lib text max_sentences = Inr (clean_text text)) \<and>
   (0 \<le> max_sentences \<and> max_sentences < int (length (sent_tokenize lib text)) \<and>
    lib_ok lib (sent_tokenize lib text) importance \<longrightarrow>
      (\<exists>chosen. summarize_text lib text max_sentences =
                  Inr (clean_text (str_join (u '' '')
                         (map (\<lambda>i. sent_tokenize lib text ! i) chosen))) \<and>
                top_selection importance (nat max_sentences) chosen))"
  using summarize_short summarize_long by blast

theorem summarize_text_selection_witness:
  "int (length (sent_tokenize story_lib story_text)) \<le> 4 \<and>
   summarize_text story_lib story_text 4 = Inr story_text \<and>
   (0::int) \<le> 2 \<and> 2 < int (length (sent_tokenize story_lib story_text)) \<and>
   lib_ok story_lib (sent_tokenize story_lib story_text) [1.41, 2.0, 1.73, 2.24] \<and>
   summarize_text story_lib story_text 2
     = Inr (u ''Dogs bark loudly at night. Owls hunt mice in dark woods.'')"
proof -
  have a: "int (length (sent_tokenize story_lib story_text)) \<le> 4"
    by (simp add: story_lib_def fixed_lib_def story_def)
  have b: "2 < int (length (sent_tokenize story_lib story_text))"
    by (simp add: story_lib_def fixed_lib_def story_def)
  have c: "summarize_text story_lib story_text 4 = Inr (clean_text story_text)"
    using a summarize_text_selection [of story_lib story_text 4] by blast
  have d: "\<exists>chosen. summarize_text story_lib story_text 2 =
              Inr (clean_text (str_join (u '' '')
                     (map (\<lambda>i. sent_tokenize story_lib story_text ! i) chosen))) \<and>
            top_selection [1.41, 2.0, 1.73, 2.24] (nat 2) chosen"
    using b story_ok
      summarize_text_selection [of story_lib story_text 2 "[1.41, 2.0, 1.73, 2.24]"]
    by simp
  show ?thesis using a b c d story_ok story_summary by (simp add: story_text_clean)
qed

end
